theory Spec2Isabelle
  imports Complex_Main
begin

section \<open>Modelling conventions\<close>

text \<open>
  The development embeds the training core of KeyBlitz: the spaced-repetition engine
  (\<^verbatim>\<open>src/core/srs.js\<close>), the queue selector (\<^verbatim>\<open>src/core/queue.js\<close>), the countdown timer
  (\<^verbatim>\<open>createTimer\<close>) and the scorer (\<^verbatim>\<open>calculateScore\<close>, \<^verbatim>\<open>SessionScorer\<close>).

  JavaScript numbers are modelled exactly: counters, levels and millisecond timestamps
  are \<^typ>\<open>int\<close>, seconds and scores before rounding are \<^typ>\<open>rat\<close>. Rounding of
  IEEE doubles is not modelled. A field of an object that is \<^verbatim>\<open>undefined\<close> or
  \<^verbatim>\<open>null\<close> is \<^term>\<open>None\<close>; the code never tells the two apart. A field that is
  present holds a value of its documented type: a number in the numeric fields, a string
  in \<^verbatim>\<open>keys\<close>. Calls of
  \<^verbatim>\<open>Date.now()\<close> and \<^verbatim>\<open>Math.random()\<close> inside a function become parameters of its
  model.
\<close>

section \<open>Command state\<close>

text \<open>
  A command with its SRS state, as the objects that flow through the SRS engine and the
  queue selector. \<open>originalIndex\<close> is the field the queue selector adds to its copies.
  The record is used through its scheme, so that fields the model does not name are
  carried along by the object spread \<^verbatim>\<open>{...command, ...}\<close>.
\<close>

record command =
  keys :: "string option"
  level :: "int option"
  successes :: "int option"
  failures :: "int option"
  lastSeen :: "int option"
  nextReview :: "int option"
  originalIndex :: "int option"

text \<open>The nullish coalescing operator \<^verbatim>\<open>x ?? d\<close>.\<close>

definition nullish_or :: "'a option \<Rightarrow> 'a \<Rightarrow> 'a" where
  "nullish_or x d = (case x of None \<Rightarrow> d | Some v \<Rightarrow> v)"

section \<open>SRS engine\<close>

definition SRS_INTERVALS :: "int list" where
  "SRS_INTERVALS = [0, 3, 10, 25, 50, 100]"

definition SUCCESSES_TO_ADVANCE :: int where
  "SUCCESSES_TO_ADVANCE = 3"

definition MAX_LEVEL :: int where
  "MAX_LEVEL = 5"

text \<open>
  \<^verbatim>\<open>SRS_INTERVALS[level] ?? 0\<close>: reading an array outside its indices gives
  \<^verbatim>\<open>undefined\<close>, which the coalescing turns into 0. An absent level indexes with
  \<^verbatim>\<open>undefined\<close>, with the same result.
\<close>

definition interval_at :: "int option \<Rightarrow> int" where
  "interval_at l =
     (case l of
        None \<Rightarrow> 0
      | Some i \<Rightarrow> if 0 \<le> i \<and> i < int (length SRS_INTERVALS) then SRS_INTERVALS ! nat i else 0)"

text \<open>
  \<^verbatim>\<open>calculateNextReview(level, currentTime)\<close>. The offset is
  \<^verbatim>\<open>interval * 2.5 * 1000\<close> milliseconds, that is \<open>interval * 2500\<close>.
\<close>

definition calculateNextReview :: "int \<Rightarrow> int \<Rightarrow> int" where
  "calculateNextReview lvl currentTime =
     (if lvl = 0 then currentTime
      else let interval = interval_at (Some lvl);
               millisecondsUntilReview = interval * 2500
           in currentTime + millisecondsUntilReview)"

text \<open>\<^verbatim>\<open>updateCommandState(command, isCorrect, currentTime)\<close>.\<close>

definition updateCommandState :: "'a command_scheme \<Rightarrow> bool \<Rightarrow> int \<Rightarrow> 'a command_scheme" where
  "updateCommandState cmd isCorrect currentTime =
     (let now = currentTime;
          currentLevel = nullish_or (level cmd) 0;
          currentSuccesses = nullish_or (successes cmd) 0;
          currentFailures = nullish_or (failures cmd) 0;
          (newLevel, newSuccesses, newFailures) =
            (if isCorrect then
               (let newSuccesses = currentSuccesses + 1
                in if newSuccesses \<ge> SUCCESSES_TO_ADVANCE \<and> currentLevel < MAX_LEVEL
                   then (currentLevel + 1, 0, currentFailures)
                   else (currentLevel, newSuccesses, currentFailures))
             else (0, 0, currentFailures + 1));
          nextReview' = calculateNextReview newLevel now
      in cmd\<lparr>level := Some newLevel, successes := Some newSuccesses,
              failures := Some newFailures, lastSeen := Some now,
              nextReview := Some nextReview'\<rparr>)"

text \<open>
  What a JavaScript expression of \<^verbatim>\<open>shouldReviewCommand\<close> can evaluate to: a boolean, a
  number, or \<^verbatim>\<open>undefined\<close>/\<^verbatim>\<open>null\<close>.
\<close>

datatype jsval = Bool bool | Num int | Nullish

text \<open>
  \<^verbatim>\<open>shouldReviewCommand(command, commandsSinceLastSeen, currentTime)\<close>. The operators
  \<^verbatim>\<open>&&\<close> and \<^verbatim>\<open>||\<close> return one of their operands: \<^verbatim>\<open>command.nextReview && ...\<close> is
  \<^verbatim>\<open>command.nextReview\<close> itself when that is falsy (absent, or the number 0).
\<close>

definition shouldReviewCommand :: "'a command_scheme \<Rightarrow> int \<Rightarrow> int \<Rightarrow> jsval" where
  "shouldReviewCommand cmd commandsSinceLastSeen currentTime =
     (if level cmd = Some 0 then Bool True
      else let interval = interval_at (level cmd);
               hasEnoughCommandsPassed = (commandsSinceLastSeen \<ge> interval);
               hasEnoughTimePassed =
                 (case nextReview cmd of
                    None \<Rightarrow> Nullish
                  | Some n \<Rightarrow> if n = 0 then Num 0 else Bool (currentTime \<ge> n))
           in if hasEnoughCommandsPassed then Bool True else hasEnoughTimePassed)"

text \<open>The same state transition applied to a run of correct answers, one per time stamp.\<close>

fun correct_run :: "'a command_scheme \<Rightarrow> int list \<Rightarrow> 'a command_scheme" where
  "correct_run cmd [] = cmd"
| "correct_run cmd (t # ts) = correct_run (updateCommandState cmd True t) ts"

section \<open>Scorer\<close>

text \<open>\<^verbatim>\<open>getComboMultiplier(combo)\<close>.\<close>

definition getComboMultiplier :: "rat \<Rightarrow> int" where
  "getComboMultiplier combo =
     (let combo = (if combo < 0 then 0 else combo)
      in \<lfloor>combo / 5\<rfloor> + 1)"

text \<open>\<^verbatim>\<open>calculateScore(timeRemaining, maxTime, level, combo)\<close>.\<close>

definition calculateScore :: "rat \<Rightarrow> rat \<Rightarrow> rat \<Rightarrow> rat \<Rightarrow> int" where
  "calculateScore timeRemaining maxTime lvl combo =
     (let timeRemaining = (if timeRemaining < 0 then 0 else timeRemaining);
          maxTime = (if maxTime \<le> 0 then 1 else maxTime);
          lvl = (if lvl < 0 then 0 else lvl);
          lvl = (if lvl > 5 then 5 else lvl);
          combo = (if combo < 0 then 0 else combo);
          basePoints = 100;
          timeBonus = (timeRemaining / maxTime) * 50;
          levelMultiplier = lvl + 1;
          comboMultiplier = getComboMultiplier combo;
          score = (basePoints + timeBonus) * levelMultiplier * of_int comboMultiplier
      in \<lfloor>score\<rfloor>)"

text \<open>\<^verbatim>\<open>updateCombo(isCorrect, currentCombo)\<close>.\<close>

definition updateCombo :: "bool \<Rightarrow> int \<Rightarrow> int" where
  "updateCombo isCorrect currentCombo =
     (let currentCombo = (if currentCombo < 0 then 0 else currentCombo)
      in if isCorrect then currentCombo + 1 else 0)"

text \<open>The fields of a \<^verbatim>\<open>SessionScorer\<close>, and the object \<^verbatim>\<open>recordAttempt\<close> returns.\<close>

record session =
  totalScore :: int
  currentCombo :: int
  bestCombo :: int
  correctCount :: int
  incorrectCount :: int

record attempt =
  res_score :: int
  res_combo :: int
  res_totalScore :: int
  res_isCorrect :: bool

definition newSessionScorer :: session where
  "newSessionScorer =
     \<lparr>totalScore = 0, currentCombo = 0, bestCombo = 0, correctCount = 0, incorrectCount = 0\<rparr>"

text \<open>
  \<^verbatim>\<open>recordAttempt(isCorrect, timeRemaining, maxTime, level)\<close>: the method mutates
  \<^verbatim>\<open>this\<close>; the model returns the result object and the updated session.
\<close>

definition recordAttempt :: "bool \<Rightarrow> rat \<Rightarrow> rat \<Rightarrow> rat \<Rightarrow> session \<Rightarrow> attempt \<times> session" where
  "recordAttempt isCorrect timeRemaining maxTime lvl this =
     (let this = this\<lparr>currentCombo := updateCombo isCorrect (currentCombo this)\<rparr>;
          this = (if currentCombo this > bestCombo this
                  then this\<lparr>bestCombo := currentCombo this\<rparr> else this)
      in if isCorrect then
           (let this = this\<lparr>correctCount := correctCount this + 1\<rparr>;
                earnedScore = calculateScore timeRemaining maxTime lvl (of_int (currentCombo this));
                this = this\<lparr>totalScore := totalScore this + earnedScore\<rparr>
            in (\<lparr>res_score = earnedScore, res_combo = currentCombo this,
                  res_totalScore = totalScore this, res_isCorrect = True\<rparr>, this))
         else
           (let this = this\<lparr>incorrectCount := incorrectCount this + 1\<rparr>
            in (\<lparr>res_score = 0, res_combo = currentCombo this,
                  res_totalScore = totalScore this, res_isCorrect = False\<rparr>, this)))"

section \<open>Queue selector\<close>

text \<open>
  The weights are quotients of numbers, and \<^verbatim>\<open>1 / (level + 1)\<close> is \<^verbatim>\<open>Infinity\<close> at
  level \<open>-1\<close>; the arithmetic of the selector is therefore modelled on the rationals
  extended with the two infinities and \<^verbatim>\<open>NaN\<close>, with the IEEE rules for them.
\<close>

datatype jsnum = Fin rat | PosInf | NegInf | NaN

fun js_neg :: "jsnum \<Rightarrow> jsnum" where
  "js_neg (Fin a) = Fin (- a)"
| "js_neg PosInf = NegInf"
| "js_neg NegInf = PosInf"
| "js_neg NaN = NaN"

fun js_add :: "jsnum \<Rightarrow> jsnum \<Rightarrow> jsnum" where
  "js_add NaN y = NaN"
| "js_add x NaN = NaN"
| "js_add (Fin a) (Fin b) = Fin (a + b)"
| "js_add PosInf NegInf = NaN"
| "js_add NegInf PosInf = NaN"
| "js_add PosInf y = PosInf"
| "js_add NegInf y = NegInf"
| "js_add (Fin a) y = y"

definition js_sub :: "jsnum \<Rightarrow> jsnum \<Rightarrow> jsnum" where
  "js_sub x y = js_add x (js_neg y)"

definition js_sign_inf :: "rat \<Rightarrow> jsnum" where
  "js_sign_inf a = (if a = 0 then NaN else if a > 0 then PosInf else NegInf)"

fun js_mul :: "jsnum \<Rightarrow> jsnum \<Rightarrow> jsnum" where
  "js_mul NaN y = NaN"
| "js_mul x NaN = NaN"
| "js_mul (Fin a) (Fin b) = Fin (a * b)"
| "js_mul (Fin a) PosInf = js_sign_inf a"
| "js_mul (Fin a) NegInf = js_sign_inf (- a)"
| "js_mul PosInf (Fin b) = js_sign_inf b"
| "js_mul NegInf (Fin b) = js_sign_inf (- b)"
| "js_mul PosInf PosInf = PosInf"
| "js_mul NegInf NegInf = PosInf"
| "js_mul PosInf NegInf = NegInf"
| "js_mul NegInf PosInf = NegInf"

text \<open>\<^verbatim>\<open>x <= 0\<close>.\<close>

fun js_le0 :: "jsnum \<Rightarrow> bool" where
  "js_le0 (Fin a) = (a \<le> 0)"
| "js_le0 NegInf = True"
| "js_le0 PosInf = False"
| "js_le0 NaN = False"

text \<open>\<^verbatim>\<open>1 / d\<close> for an integer \<open>d\<close>.\<close>

definition js_recip :: "int \<Rightarrow> jsnum" where
  "js_recip d = (if d = 0 then PosInf else Fin (1 / of_int d))"

datatype error = TypeError string

text \<open>
  An argument that is expected to be an array of commands: either some value for which
  \<^verbatim>\<open>Array.isArray\<close> is false, or an array. The elements of the array are objects.
\<close>

datatype 'a js_arg = NotAnArray | Array "'a list"

text \<open>The message of the error for a command without a numeric level:
  \<^verbatim>\<open>`Command "${cmd.keys || 'unknown'}" missing level property`\<close>.\<close>

definition missing_level_message :: "'a command_scheme \<Rightarrow> string" where
  "missing_level_message cmd =
     ''Command '' @ [CHR 0x22] @
     (case keys cmd of None \<Rightarrow> ''unknown'' | Some k \<Rightarrow> if k = [] then ''unknown'' else k) @
     [CHR 0x22] @ '' missing level property''"

text \<open>The callback of \<^verbatim>\<open>commands.map\<close> in \<^verbatim>\<open>getCommandWeights\<close>.\<close>

definition command_weight :: "'a command_scheme \<Rightarrow> error + jsnum" where
  "command_weight cmd =
     (case level cmd of
        None \<Rightarrow> Inl (TypeError (missing_level_message cmd))
      | Some l \<Rightarrow> Inr (js_recip (l + 1)))"

text \<open>\<^verbatim>\<open>Array.prototype.map\<close> with a callback that may throw: the first throw ends the call.\<close>

fun map_throwing :: "('a \<Rightarrow> error + 'b) \<Rightarrow> 'a list \<Rightarrow> error + 'b list" where
  "map_throwing f [] = Inr []"
| "map_throwing f (x # xs) =
     (case f x of
        Inl e \<Rightarrow> Inl e
      | Inr y \<Rightarrow> (case map_throwing f xs of Inl e \<Rightarrow> Inl e | Inr ys \<Rightarrow> Inr (y # ys)))"

text \<open>\<^verbatim>\<open>getCommandWeights(commands)\<close>.\<close>

definition getCommandWeights :: "'a command_scheme js_arg \<Rightarrow> error + jsnum list" where
  "getCommandWeights commands =
     (case commands of
        NotAnArray \<Rightarrow> Inl (TypeError ''commands must be an array'')
      | Array cmds \<Rightarrow> map_throwing command_weight cmds)"

text \<open>
  What \<^verbatim>\<open>selectNextCommand\<close> returns: \<^verbatim>\<open>null\<close>, an element of an array, or
  \<^verbatim>\<open>undefined\<close> where an array is read outside its indices.
\<close>

datatype 'a selection = Null | Undefined | Selected 'a

definition js_index :: "'a list \<Rightarrow> int \<Rightarrow> 'a selection" where
  "js_index xs i = (if 0 \<le> i \<and> i < int (length xs) then Selected (xs ! nat i) else Undefined)"

text \<open>The callback of the first \<^verbatim>\<open>filter\<close>: is the command due at \<open>now\<close>?\<close>

definition is_due :: "int \<Rightarrow> 'a command_scheme \<Rightarrow> bool" where
  "is_due now cmd = (case nextReview cmd of None \<Rightarrow> True | Some n \<Rightarrow> n \<le> now)"

text \<open>
  The loop of the weighted selection: \<^verbatim>\<open>random -= weights[i]; if (random <= 0) return
  commandPool[i]\<close>. The result is \<^term>\<open>None\<close> when the loop ends without a return. A
  missing weight is \<^verbatim>\<open>undefined\<close>, the difference is \<^verbatim>\<open>NaN\<close> from then on and no
  later test succeeds.
\<close>

fun weighted_walk :: "jsnum \<Rightarrow> 'r list \<Rightarrow> jsnum list \<Rightarrow> 'r option" where
  "weighted_walk random [] ws = None"
| "weighted_walk random (c # cs) [] = None"
| "weighted_walk random (c # cs) (w # ws) =
     (let random = js_sub random w
      in if js_le0 random then Some c else weighted_walk random cs ws)"

text \<open>
  \<^verbatim>\<open>selectNextCommand\<close> after its \<^verbatim>\<open>commands.map\<close>: the copies are filtered, and one of
  them is chosen. The code holds the copies by reference; \<open>get\<close> reads the object
  behind a reference, so that the same text serves a model with values (where \<open>get\<close> is
  the identity) and one with a store. \<open>u\<close> is the outcome of the one call of
  \<^verbatim>\<open>Math.random()\<close> that each path makes.
\<close>

definition selectFromCopies ::
  "('r \<Rightarrow> 'a command_scheme) \<Rightarrow> 'r list \<Rightarrow> int option \<Rightarrow> int \<Rightarrow> rat \<Rightarrow> error + 'r selection" where
  "selectFromCopies get copies currentCommandIndex now u =
     (let dueCommands = filter (\<lambda>cmd. is_due now (get cmd)) copies
      in if length dueCommands = 0 then Inr Null
         else
           let availableCommands =
                 filter (\<lambda>cmd. originalIndex (get cmd) \<noteq> currentCommandIndex) dueCommands;
               commandPool =
                 (if length availableCommands > 0 then availableCommands else dueCommands);
               level0Commands = filter (\<lambda>cmd. level (get cmd) = Some 0) commandPool
           in if length level0Commands > 0 then
                (let randomIndex = \<lfloor>u * of_nat (length level0Commands)\<rfloor>
                 in Inr (js_index level0Commands randomIndex))
              else
                (case getCommandWeights (Array (map get commandPool)) of
                   Inl e \<Rightarrow> Inl e
                 | Inr weights \<Rightarrow>
                     let totalWeight = foldl js_add (Fin 0) weights
                     in if totalWeight = Fin 0 then
                          (let randomIndex = \<lfloor>u * of_nat (length commandPool)\<rfloor>
                           in Inr (js_index commandPool randomIndex))
                        else
                          (case weighted_walk (js_mul (Fin u) totalWeight) commandPool weights of
                             Some cmd \<Rightarrow> Inr (Selected cmd)
                           | None \<Rightarrow>
                               Inr (js_index commandPool (int (length commandPool) - 1)))))"

text \<open>The object \<^verbatim>\<open>{ ...cmd, originalIndex: index }\<close>.\<close>

definition with_index :: "'a command_scheme \<Rightarrow> nat \<Rightarrow> 'a command_scheme" where
  "with_index cmd index = cmd\<lparr>originalIndex := Some (int index)\<rparr>"

text \<open>\<^verbatim>\<open>selectNextCommand(commands, currentCommandIndex)\<close> on values.\<close>

definition selectNextCommand ::
  "'a command_scheme js_arg \<Rightarrow> int option \<Rightarrow> int \<Rightarrow> rat \<Rightarrow> error + 'a command_scheme selection" where
  "selectNextCommand commands currentCommandIndex now u =
     (case commands of
        NotAnArray \<Rightarrow> Inl (TypeError ''commands must be an array'')
      | Array cmds \<Rightarrow>
          if length cmds = 0 then Inr Null
          else selectFromCopies (\<lambda>cmd. cmd)
                 (map (\<lambda>(cmd, index). with_index cmd index) (zip cmds [0..<length cmds]))
                 currentCommandIndex now u)"

text \<open>
  \<^verbatim>\<open>selectNextCommand\<close> with an explicit store, for what the function does to the
  objects it is given. A value is a reference into the store or a primitive; a cell of
  the store is an object or an array of values. Allocation appends a cell, so the
  address of a new cell is the length of the store before. The arrays that
  \<^verbatim>\<open>map\<close> and \<^verbatim>\<open>filter\<close> build are local to the call and stay lists.
\<close>

datatype jsref = Ref nat | Primitive

datatype cell = Obj command | Arr "jsref list"

type_synonym store = "cell list"

definition no_fields :: command where
  "no_fields =
     \<lparr>keys = None, level = None, successes = None, failures = None, lastSeen = None,
      nextReview = None, originalIndex = None\<rparr>"

text \<open>
  The fields that \<^verbatim>\<open>v.field\<close> and the spread \<^verbatim>\<open>{...v}\<close> read from a value: those of the
  object behind a reference, none of the modelled ones from a primitive or an array.
\<close>

definition fields_of :: "store \<Rightarrow> jsref \<Rightarrow> command" where
  "fields_of h v =
     (case v of
        Primitive \<Rightarrow> no_fields
      | Ref r \<Rightarrow>
          if r < length h then (case h ! r of Obj c \<Rightarrow> c | Arr vs \<Rightarrow> no_fields)
          else no_fields)"

text \<open>The elements of the array behind a value, when \<^verbatim>\<open>Array.isArray\<close> holds of it.\<close>

definition array_at :: "store \<Rightarrow> jsref \<Rightarrow> jsref list option" where
  "array_at h v =
     (case v of
        Primitive \<Rightarrow> None
      | Ref r \<Rightarrow>
          if r < length h then (case h ! r of Obj c \<Rightarrow> None | Arr vs \<Rightarrow> Some vs)
          else None)"

definition selectNextCommand_st ::
  "store \<Rightarrow> jsref \<Rightarrow> int option \<Rightarrow> int \<Rightarrow> rat \<Rightarrow> (error + jsref selection) \<times> store" where
  "selectNextCommand_st h commands currentCommandIndex now u =
     (case array_at h commands of
        None \<Rightarrow> (Inl (TypeError ''commands must be an array''), h)
      | Some cmds \<Rightarrow>
          if length cmds = 0 then (Inr Null, h)
          else
            let copies =
                  map (\<lambda>(cmd, index). Obj (with_index (fields_of h cmd) index))
                    (zip cmds [0..<length cmds]);
                h' = h @ copies;
                refs = map Ref [length h..<length h + length cmds]
            in (selectFromCopies (fields_of h') refs currentCommandIndex now u, h'))"

text \<open>Every reference held by an array of the store points into the store.\<close>

definition closed_store :: "store \<Rightarrow> bool" where
  "closed_store h =
     list_all (\<lambda>c. case c of
                  Obj x \<Rightarrow> True
                | Arr vs \<Rightarrow> list_all (\<lambda>v. case v of Primitive \<Rightarrow> True | Ref r \<Rightarrow> r < length h) vs) h"

section \<open>Timer\<close>

text \<open>
  The closure variables of \<^verbatim>\<open>createTimer\<close> as a record. \<open>intervalId\<close> tells whether an
  interval is scheduled (the identifier itself is never used). Times of the clock are
  milliseconds; \<open>timeLimit\<close>, \<open>remainingTime\<close> and \<open>elapsedBeforePause\<close> are seconds.
  The callbacks \<^verbatim>\<open>onTick\<close> and \<^verbatim>\<open>onComplete\<close> are taken not to call the timer; their
  invocations are kept in \<open>calls\<close>. Each call of a method reads the clock once.
\<close>

datatype callback = OnTick rat | OnComplete

record timer =
  timeLimit :: rat
  intervalId :: bool
  startTime :: "int option"
  remainingTime :: rat
  isRunning :: bool
  isPaused :: bool
  pausedAt :: "int option"
  elapsedBeforePause :: rat
  calls :: "callback list"

text \<open>In arithmetic, \<^verbatim>\<open>null\<close> is the number 0.\<close>

definition to_number :: "int option \<Rightarrow> int" where
  "to_number x = (case x of None \<Rightarrow> 0 | Some n \<Rightarrow> n)"

definition createTimer :: "rat \<Rightarrow> timer" where
  "createTimer limit =
     \<lparr>timeLimit = limit, intervalId = False, startTime = None, remainingTime = limit,
      isRunning = False, isPaused = False, pausedAt = None, elapsedBeforePause = 0,
      calls = []\<rparr>"

definition updateRemaining :: "int \<Rightarrow> timer \<Rightarrow> rat \<times> timer" where
  "updateRemaining now t =
     (if \<not> isRunning t \<or> isPaused t then (remainingTime t, t)
      else
        let elapsed = of_int (now - to_number (startTime t)) / 1000;
            t = t\<lparr>remainingTime := max 0 (timeLimit t - elapsed - elapsedBeforePause t)\<rparr>
        in (remainingTime t, t))"

definition stop :: "timer \<Rightarrow> timer" where
  "stop t = t\<lparr>intervalId := False, isRunning := False, isPaused := False, remainingTime := 0\<rparr>"

definition tick :: "int \<Rightarrow> timer \<Rightarrow> timer" where
  "tick now t =
     (let (remaining, t) = updateRemaining now t;
          t = t\<lparr>calls := calls t @ [OnTick remaining]\<rparr>
      in if remaining \<le> 0 then
           (let t = stop t in t\<lparr>calls := calls t @ [OnComplete]\<rparr>)
         else t)"

definition start :: "int \<Rightarrow> timer \<Rightarrow> timer" where
  "start now t =
     (if isRunning t \<and> \<not> isPaused t then t
      else
        let t = (if isPaused t then t\<lparr>isPaused := False, startTime := Some now\<rparr>
                 else t\<lparr>startTime := Some now, remainingTime := timeLimit t,
                        elapsedBeforePause := 0\<rparr>);
            t = t\<lparr>isRunning := True\<rparr>;
            t = t\<lparr>intervalId := True\<rparr>
        in tick now t)"

definition pause :: "int \<Rightarrow> timer \<Rightarrow> timer" where
  "pause now t =
     (if \<not> isRunning t \<or> isPaused t then t
      else
        let t = t\<lparr>isPaused := True, pausedAt := Some now\<rparr>;
            t = t\<lparr>elapsedBeforePause :=
                    elapsedBeforePause t
                    + of_int (to_number (pausedAt t) - to_number (startTime t)) / 1000\<rparr>
        in t\<lparr>intervalId := False\<rparr>)"

definition getRemaining :: "int \<Rightarrow> timer \<Rightarrow> rat \<times> timer" where
  "getRemaining now t = (if isPaused t then (remainingTime t, t) else updateRemaining now t)"


definition isPausedState :: "timer \<Rightarrow> bool" where
  "isPausedState t = isPaused t"

definition addTime :: "rat \<Rightarrow> timer \<Rightarrow> timer" where
  "addTime seconds t =
     (let t = t\<lparr>timeLimit := timeLimit t + seconds\<rparr>
      in t\<lparr>remainingTime := max 0 (remainingTime t + seconds)\<rparr>)"

text \<open>
  What can happen to a timer: a call of one of its methods, the scheduled interval
  firing (which runs \<^verbatim>\<open>tick\<close>, and only while an interval is scheduled), and the clock
  advancing by some milliseconds. A state is the clock and the timer.
\<close>

datatype event = Start | Stop | Pause | AddTime rat | GetRemaining | IntervalFires | ClockAdvance nat

fun step :: "int \<times> timer \<Rightarrow> event \<Rightarrow> int \<times> timer" where
  "step (now, t) Start = (now, start now t)"
| "step (now, t) Stop = (now, stop t)"
| "step (now, t) Pause = (now, pause now t)"
| "step (now, t) (AddTime seconds) = (now, addTime seconds t)"
| "step (now, t) GetRemaining = (now, snd (getRemaining now t))"
| "step (now, t) IntervalFires = (now, if intervalId t then tick now t else t)"
| "step (now, t) (ClockAdvance ms) = (now + int ms, t)"

definition run :: "int \<times> timer \<Rightarrow> event list \<Rightarrow> int \<times> timer" where
  "run s es = foldl step s es"

section \<open>Definitions used by the statements and their proofs\<close>

text \<open>
  The values of the local variables \<^verbatim>\<open>dueCommands\<close> and \<^verbatim>\<open>commandPool\<close> of
  \<^verbatim>\<open>selectNextCommand\<close>, as functions of its inputs.
\<close>

definition dueCommands_of :: "('r \<Rightarrow> 'a command_scheme) \<Rightarrow> 'r list \<Rightarrow> int \<Rightarrow> 'r list" where
  "dueCommands_of get copies now = filter (\<lambda>cmd. is_due now (get cmd)) copies"

definition commandPool_of ::
  "('r \<Rightarrow> 'a command_scheme) \<Rightarrow> 'r list \<Rightarrow> int option \<Rightarrow> int \<Rightarrow> 'r list" where
  "commandPool_of get copies currentCommandIndex now =
     (let dueCommands = dueCommands_of get copies now;
          availableCommands =
            filter (\<lambda>cmd. originalIndex (get cmd) \<noteq> currentCommandIndex) dueCommands
      in if length availableCommands > 0 then availableCommands else dueCommands)"

text \<open>
  The candidate pool in the words of the specification, as indices into the input array:
  the commands that are due (\<^verbatim>\<open>nextReview\<close> unset or at most \<open>now\<close>), without the one at
  \<open>currentIndex\<close> unless that leaves nothing.
\<close>

definition candidate_pool :: "'a command_scheme list \<Rightarrow> int option \<Rightarrow> int \<Rightarrow> nat list" where
  "candidate_pool cmds currentIndex now =
     (let due = filter (\<lambda>i. case nextReview (cmds ! i) of None \<Rightarrow> True | Some n \<Rightarrow> n \<le> now)
                  [0..<length cmds];
          others = filter (\<lambda>i. Some (int i) \<noteq> currentIndex) due
      in if others = [] then due else others)"

text \<open>
  The argument of the value model that a value of the store model stands for.
\<close>

definition array_arg :: "store \<Rightarrow> jsref \<Rightarrow> command js_arg" where
  "array_arg h v =
     (case array_at h v of None \<Rightarrow> NotAnArray | Some cmds \<Rightarrow> Array (map (fields_of h) cmds))"







section \<open>Concrete inputs\<close>

text \<open>
  Commands, a store and event traces on which the statements below are instantiated.
\<close>

definition fresh_dd :: command where
  "fresh_dd =
     \<lparr>keys = Some ''dd'', level = Some 0, successes = Some 0, failures = Some 0,
      lastSeen = None, nextReview = Some 1000, originalIndex = None\<rparr>"

definition mastered_dd :: command where
  "mastered_dd =
     \<lparr>keys = Some ''dd'', level = Some 5, successes = Some 2, failures = Some 1,
      lastSeen = Some 1000, nextReview = Some 251000, originalIndex = None\<rparr>"

definition epoch_cmd :: command where
  "epoch_cmd =
     \<lparr>keys = Some ''dd'', level = Some 1, successes = Some 0, failures = Some 0,
      lastSeen = None, nextReview = Some 0, originalIndex = None\<rparr>"

definition familiar_gg :: command where
  "familiar_gg =
     \<lparr>keys = Some ''gg'', level = Some 2, successes = Some 1, failures = Some 0,
      lastSeen = Some 500, nextReview = Some 1500, originalIndex = None\<rparr>"

definition later_cc :: command where
  "later_cc =
     \<lparr>keys = Some ''cc'', level = Some 0, successes = Some 0, failures = Some 3,
      lastSeen = Some 500, nextReview = Some 9000, originalIndex = None\<rparr>"


definition two_command_store :: store where
  "two_command_store = [Obj fresh_dd, Obj familiar_gg, Arr [Ref 0, Ref 1]]"



section \<open>Properties of the SRS engine\<close>

lemma interval_at_table:
  "interval_at (Some 1) = 3 \<and> interval_at (Some 2) = 10 \<and> interval_at (Some 3) = 25 \<and>
   interval_at (Some 4) = 50 \<and> interval_at (Some 5) = 100"
  by (simp add: interval_at_def SRS_INTERVALS_def)

text \<open>
  Claim C1. For every command state and every time \<open>t\<close>, a wrong answer gives level 0,
  successes 0 and one more failure than before (an absent counter counts as 0), whatever
  the level was; \<open>lastSeen\<close> is \<open>t\<close> and \<open>nextReview\<close> is
  \<open>calculateNextReview 0 t\<close>, which is \<open>t\<close>.
\<close>

theorem updateCommandState_incorrect:
  "level (updateCommandState cmd False t) = Some 0 \<and>
   successes (updateCommandState cmd False t) = Some 0 \<and>
   failures (updateCommandState cmd False t) = Some (nullish_or (failures cmd) 0 + 1) \<and>
   lastSeen (updateCommandState cmd False t) = Some t \<and>
   nextReview (updateCommandState cmd False t) = Some (calculateNextReview 0 t) \<and>
   calculateNextReview 0 t = t"
  by (simp add: updateCommandState_def calculateNextReview_def)

lemma updateCommandState_level_cases:
  "level (updateCommandState cmd isCorrect t) =
     Some (if isCorrect then
             (if nullish_or (successes cmd) 0 + 1 \<ge> 3 \<and> nullish_or (level cmd) 0 < 5
              then nullish_or (level cmd) 0 + 1 else nullish_or (level cmd) 0)
           else 0)"
  by (simp add: updateCommandState_def SUCCESSES_TO_ADVANCE_def MAX_LEVEL_def Let_def)

lemma updateCommandState_successes_cases:
  "successes (updateCommandState cmd isCorrect t) =
     Some (if isCorrect then
             (if nullish_or (successes cmd) 0 + 1 \<ge> 3 \<and> nullish_or (level cmd) 0 < 5
              then 0 else nullish_or (successes cmd) 0 + 1)
           else 0)"
  by (simp add: updateCommandState_def SUCCESSES_TO_ADVANCE_def MAX_LEVEL_def Let_def)

lemma correct_run_level_bounded:
  "level cmd = Some l \<Longrightarrow> l \<le> 5 \<Longrightarrow>
   \<exists>l'. level (correct_run cmd ts) = Some l' \<and> l \<le> l' \<and> l' \<le> 5"
proof (induction ts arbitrary: cmd l)
  case Nil
  then show ?case by simp
next
  case (Cons t ts)
  let ?c = "updateCommandState cmd True t"
  obtain m where m: "level ?c = Some m" "l \<le> m" "m \<le> 5"
    using Cons.prems by (auto simp: updateCommandState_level_cases nullish_or_def)
  from Cons.IH [OF m(1) m(3)] obtain l' where
    "level (correct_run ?c ts) = Some l'" "m \<le> l'" "l' \<le> 5" by blast
  with m(2) show ?case by auto
qed

text \<open>
  Claim C2. From a state whose level \<open>l\<close> is between 0 and 5, every transition gives a
  level between 0 and 5, and successes 0 whenever the level has changed; and any run of
  correct answers gives a level between \<open>l\<close> and 5, so that a command at level 5 stays at
  level 5.
\<close>

theorem updateCommandState_level_invariant:
  assumes "level cmd = Some l" and "0 \<le> l" and "l \<le> 5"
  shows "(\<exists>l'. level (updateCommandState cmd isCorrect t) = Some l' \<and> 0 \<le> l' \<and> l' \<le> 5 \<and>
            (l' \<noteq> l \<longrightarrow> successes (updateCommandState cmd isCorrect t) = Some 0)) \<and>
         (\<exists>k. level (correct_run cmd ts) = Some k \<and> l \<le> k \<and> k \<le> 5)"
proof
  show "\<exists>l'. level (updateCommandState cmd isCorrect t) = Some l' \<and> 0 \<le> l' \<and> l' \<le> 5 \<and>
            (l' \<noteq> l \<longrightarrow> successes (updateCommandState cmd isCorrect t) = Some 0)"
    using assms
    by (auto simp: updateCommandState_level_cases updateCommandState_successes_cases
        nullish_or_def)
  show "\<exists>k. level (correct_run cmd ts) = Some k \<and> l \<le> k \<and> k \<le> 5"
    using assms(1,3) by (rule correct_run_level_bounded)
qed

text \<open>
  The statement of C2 at a command of level 5 with two successes: a correct answer
  leaves it at level 5, a wrong one sends it to level 0 with successes 0, and four more
  correct answers leave it at level 5.
\<close>

theorem updateCommandState_level_invariant_witness:
  "level mastered_dd = Some 5 \<and>
   level (updateCommandState mastered_dd True 2000) = Some 5 \<and>
   level (updateCommandState mastered_dd False 2000) = Some 0 \<and>
   successes (updateCommandState mastered_dd False 2000) = Some 0 \<and>
   level (correct_run mastered_dd [2000, 3000, 4000, 5000]) = Some 5"
proof -
  have l: "level mastered_dd = Some 5" by (simp add: mastered_dd_def)
  have a: "(0::int) \<le> 5" and b: "(5::int) \<le> 5" by simp_all
  from updateCommandState_level_invariant [OF l a b, of True 2000 "[2000, 3000, 4000, 5000]"]
  have "level (correct_run mastered_dd [2000, 3000, 4000, 5000]) = Some 5" by auto
  moreover
  from updateCommandState_level_invariant [OF l a b, of False 2000 "[]"]
  have "successes (updateCommandState mastered_dd False 2000) = Some 0"
    by (auto simp: updateCommandState_level_cases)
  ultimately show ?thesis
    using l by (simp add: updateCommandState_level_cases mastered_dd_def nullish_or_def)
qed

text \<open>
  Claim C3. A correct answer increments the successes, and when they reach 3 at a level
  below 5 the level is incremented and the successes are reset to 0. So from successes 0
  and a level below 5, three correct answers in a row give the next level and successes
  0.
\<close>

theorem three_correct_advance:
  "successes (updateCommandState cmd True t)
     = Some (if nullish_or (successes cmd) 0 + 1 \<ge> 3 \<and> nullish_or (level cmd) 0 < 5 then 0
             else nullish_or (successes cmd) 0 + 1) \<and>
   level (updateCommandState cmd True t)
     = Some (if nullish_or (successes cmd) 0 + 1 \<ge> 3 \<and> nullish_or (level cmd) 0 < 5
             then nullish_or (level cmd) 0 + 1 else nullish_or (level cmd) 0) \<and>
   (nullish_or (successes cmd) 0 = 0 \<and> nullish_or (level cmd) 0 < 5 \<longrightarrow>
      level (updateCommandState (updateCommandState (updateCommandState cmd True t1) True t2) True t3)
        = Some (nullish_or (level cmd) 0 + 1) \<and>
      successes (updateCommandState (updateCommandState (updateCommandState cmd True t1) True t2) True t3)
        = Some 0)"
  by (simp add: updateCommandState_level_cases updateCommandState_successes_cases nullish_or_def)

text \<open>
  The statement of C3 at a new command: after one correct answer it has one success,
  after three it is at level 1 with successes 0.
\<close>

theorem three_correct_advance_witness:
  "nullish_or (successes fresh_dd) 0 = 0 \<and> nullish_or (level fresh_dd) 0 < 5 \<and>
   successes (updateCommandState fresh_dd True 1000) = Some 1 \<and>
   level (updateCommandState (updateCommandState (updateCommandState fresh_dd True 1000) True 2000) True 3000)
     = Some 1 \<and>
   successes (updateCommandState (updateCommandState (updateCommandState fresh_dd True 1000) True 2000) True 3000)
     = Some 0"
proof -
  have s: "nullish_or (successes fresh_dd) 0 = 0" and l: "nullish_or (level fresh_dd) 0 < 5"
    and v: "nullish_or (level fresh_dd) 0 = 0"
    by (simp_all add: fresh_dd_def nullish_or_def)
  from three_correct_advance [of fresh_dd 1000 1000 2000 3000] s l v show ?thesis by simp
qed

text \<open>
  When \<^verbatim>\<open>shouldReviewCommand\<close> returns \<^verbatim>\<open>true\<close>: always at level 0; at another level when
  enough commands have passed, or \<open>nextReview\<close> is a number other than 0 that \<open>now\<close> has
  reached.
\<close>

lemma shouldReviewCommand_level0: "level cmd = Some 0 \<Longrightarrow> shouldReviewCommand cmd n t = Bool True"
  by (simp add: shouldReviewCommand_def)

lemma shouldReviewCommand_true_iff:
  "level cmd \<noteq> Some 0 \<Longrightarrow>
   shouldReviewCommand cmd n t = Bool True \<longleftrightarrow>
     n \<ge> interval_at (level cmd) \<or> (\<exists>r. nextReview cmd = Some r \<and> r \<noteq> 0 \<and> t \<ge> r)"
  by (auto simp: shouldReviewCommand_def split: option.splits)

text \<open>
  Claim C9, at a command of level 1 whose \<open>nextReview\<close> is the time stamp 0: no command
  has passed and the time is 5, so \<open>nextReview\<close> is set and has been reached, yet the
  function returns the number 0 and not \<^verbatim>\<open>true\<close>. The test
  \<^verbatim>\<open>command.nextReview && ...\<close> takes the time stamp 0 for an absent one.
\<close>

theorem shouldReviewCommand_nextReview_zero:
  "shouldReviewCommand epoch_cmd 0 5 = Num 0 \<and> shouldReviewCommand epoch_cmd 0 5 \<noteq> Bool True \<and>
   nextReview epoch_cmd = Some 0 \<and> (5::int) \<ge> 0"
  by (simp add: shouldReviewCommand_def epoch_cmd_def interval_at_def SRS_INTERVALS_def)

section \<open>Properties of the scorer\<close>


text \<open>
  Claim C7. \<^verbatim>\<open>recordAttempt\<close> sets \<open>currentCombo\<close> to \<open>updateCombo isCorrect currentCombo\<close>,
  raises \<open>bestCombo\<close> to the maximum of its old value and the new combo, increments
  \<open>correctCount\<close> on success and \<open>incorrectCount\<close> otherwise; on success the score
  computed with the new combo is returned and added to \<open>totalScore\<close>; on failure the
  score is 0, \<open>totalScore\<close> is unchanged and \<open>currentCombo\<close> is 0.
\<close>

theorem recordAttempt_effect:
  "currentCombo (snd (recordAttempt isCorrect tr mt lvl s)) = updateCombo isCorrect (currentCombo s) \<and>
   bestCombo (snd (recordAttempt isCorrect tr mt lvl s))
     = max (bestCombo s) (updateCombo isCorrect (currentCombo s)) \<and>
   correctCount (snd (recordAttempt isCorrect tr mt lvl s))
     = (if isCorrect then correctCount s + 1 else correctCount s) \<and>
   incorrectCount (snd (recordAttempt isCorrect tr mt lvl s))
     = (if isCorrect then incorrectCount s else incorrectCount s + 1) \<and>
   totalScore (snd (recordAttempt True tr mt lvl s))
     = totalScore s + calculateScore tr mt lvl (of_int (updateCombo True (currentCombo s))) \<and>
   res_score (fst (recordAttempt True tr mt lvl s))
     = calculateScore tr mt lvl (of_int (updateCombo True (currentCombo s))) \<and>
   res_score (fst (recordAttempt False tr mt lvl s)) = 0 \<and>
   totalScore (snd (recordAttempt False tr mt lvl s)) = totalScore s \<and>
   currentCombo (snd (recordAttempt False tr mt lvl s)) = 0 \<and>
   res_combo (fst (recordAttempt isCorrect tr mt lvl s)) = updateCombo isCorrect (currentCombo s) \<and>
   res_totalScore (fst (recordAttempt isCorrect tr mt lvl s))
     = totalScore (snd (recordAttempt isCorrect tr mt lvl s)) \<and>
   res_isCorrect (fst (recordAttempt isCorrect tr mt lvl s)) = isCorrect"
  by (simp add: recordAttempt_def Let_def updateCombo_def max_def)

text \<open>
  The session of the specification: two successes, a failure and a success, all at level
  0 with the full time left.
\<close>

lemma session_scenario:
  "snd (recordAttempt True 2 2 0 (snd (recordAttempt False 0 2 0
     (snd (recordAttempt True 2 2 0 (snd (recordAttempt True 2 2 0 newSessionScorer)))))))
   = \<lparr>totalScore = 450, currentCombo = 1, bestCombo = 2, correctCount = 3, incorrectCount = 1\<rparr>"
  by code_simp

section \<open>Properties of the queue selector\<close>

subsection \<open>Indexing, the weighted walk and the pool\<close>

lemma floor_index_bounds:
  fixes u :: rat
  assumes "0 \<le> u" and "u < 1" and "0 < n"
  shows "0 \<le> \<lfloor>u * of_nat n\<rfloor> \<and> \<lfloor>u * of_nat n\<rfloor> < int n"
proof
  have "0 \<le> u * of_nat n" using assms(1) by simp
  then show "0 \<le> \<lfloor>u * of_nat n\<rfloor>" by simp
  have "u * of_nat n < 1 * of_nat n"
    using assms(2,3) by (intro mult_strict_right_mono) simp_all
  then have "u * of_nat n < of_int (int n)" by simp
  then show "\<lfloor>u * of_nat n\<rfloor> < int n" by (simp only: floor_less_iff)
qed

lemma js_index_Selected_mem: "js_index xs i = Selected x \<Longrightarrow> x \<in> set xs"
  by (auto simp: js_index_def split: if_splits)

lemma js_index_not_Null: "js_index xs i \<noteq> Null"
  by (simp add: js_index_def)

lemma js_index_random:
  fixes u :: rat
  assumes "0 \<le> u" and "u < 1" and "xs \<noteq> []"
  shows "\<exists>x \<in> set xs. js_index xs \<lfloor>u * of_nat (length xs)\<rfloor> = Selected x"
proof -
  have "0 < length xs" using assms(3) by simp
  from floor_index_bounds [OF assms(1,2) this]
  have b: "0 \<le> \<lfloor>u * of_nat (length xs)\<rfloor>" "\<lfloor>u * of_nat (length xs)\<rfloor> < int (length xs)"
    by simp_all
  then have "nat \<lfloor>u * of_nat (length xs)\<rfloor> < length xs" by linarith
  then have "xs ! nat \<lfloor>u * of_nat (length xs)\<rfloor> \<in> set xs" by (rule nth_mem)
  with b show ?thesis by (simp add: js_index_def)
qed

lemma js_index_last: "xs \<noteq> [] \<Longrightarrow> \<exists>x \<in> set xs. js_index xs (int (length xs) - 1) = Selected x"
  by (cases xs rule: rev_cases) (auto simp: js_index_def nth_append)

lemma weighted_walk_mem: "weighted_walk r xs ws = Some c \<Longrightarrow> c \<in> set xs"
  by (induction r xs ws rule: weighted_walk.induct) (auto simp: Let_def split: if_splits)

lemma commandPool_subset_due:
  "set (commandPool_of get copies idx now) \<subseteq> set (dueCommands_of get copies now)"
  by (auto simp: commandPool_of_def Let_def)

lemma commandPool_empty_iff:
  "commandPool_of get copies idx now = [] \<longleftrightarrow> dueCommands_of get copies now = []"
  by (auto simp: commandPool_of_def Let_def)

lemma selectFromCopies_unfold:
  "selectFromCopies get copies idx now u =
     (if dueCommands_of get copies now = [] then Inr Null
      else
        let commandPool = commandPool_of get copies idx now;
            level0Commands = filter (\<lambda>cmd. level (get cmd) = Some 0) commandPool
        in if level0Commands \<noteq> [] then
             Inr (js_index level0Commands \<lfloor>u * of_nat (length level0Commands)\<rfloor>)
           else
             (case getCommandWeights (Array (map get commandPool)) of
                Inl e \<Rightarrow> Inl e
              | Inr weights \<Rightarrow>
                  if foldl js_add (Fin 0) weights = Fin 0 then
                    Inr (js_index commandPool \<lfloor>u * of_nat (length commandPool)\<rfloor>)
                  else
                    (case weighted_walk (js_mul (Fin u) (foldl js_add (Fin 0) weights))
                            commandPool weights of
                       Some cmd \<Rightarrow> Inr (Selected cmd)
                     | None \<Rightarrow> Inr (js_index commandPool (int (length commandPool) - 1)))))"
  by (simp add: selectFromCopies_def commandPool_of_def dueCommands_of_def Let_def
      split: sum.splits option.splits)

lemma selectFromCopies_Null_iff:
  "selectFromCopies get copies idx now u = Inr Null \<longleftrightarrow> dueCommands_of get copies now = []"
  by (auto simp: selectFromCopies_unfold Let_def js_index_not_Null
      split: sum.splits option.splits)

lemma selectFromCopies_Selected_pool:
  "selectFromCopies get copies idx now u = Inr (Selected c) \<Longrightarrow>
   c \<in> set (commandPool_of get copies idx now)"
  by (auto simp: selectFromCopies_unfold Let_def
      split: sum.splits option.splits if_splits
      dest: js_index_Selected_mem weighted_walk_mem)

lemma selectFromCopies_level0:
  fixes u :: rat
  assumes "0 \<le> u" and "u < 1"
    and "\<exists>c \<in> set (commandPool_of get copies idx now). level (get c) = Some 0"
  shows "\<exists>c \<in> set (commandPool_of get copies idx now).
           selectFromCopies get copies idx now u = Inr (Selected c) \<and> level (get c) = Some 0"
proof -
  let ?pool = "commandPool_of get copies idx now"
  let ?l0 = "filter (\<lambda>cmd. level (get cmd) = Some 0) ?pool"
  have ne: "?l0 \<noteq> []" using assms(3) by (auto simp: filter_empty_conv)
  then have due: "dueCommands_of get copies now \<noteq> []"
    using commandPool_empty_iff [of get copies idx now] by auto
  from js_index_random [OF assms(1,2) ne] obtain x where
    x: "x \<in> set ?l0" "js_index ?l0 \<lfloor>u * of_nat (length ?l0)\<rfloor> = Selected x" by blast
  have "selectFromCopies get copies idx now u = Inr (Selected x)"
    using ne due x(2) by (simp add: selectFromCopies_unfold Let_def)
  with x(1) show ?thesis by auto
qed

lemma selectFromCopies_not_Undefined:
  fixes u :: rat
  assumes "0 \<le> u" and "u < 1"
  shows "selectFromCopies get copies idx now u \<noteq> Inr Undefined"
proof (cases "dueCommands_of get copies now = []")
  case True
  then show ?thesis by (simp add: selectFromCopies_unfold)
next
  case False
  let ?pool = "commandPool_of get copies idx now"
  let ?l0 = "filter (\<lambda>cmd. level (get cmd) = Some 0) ?pool"
  have pool: "?pool \<noteq> []" using False by (simp add: commandPool_empty_iff)
  from js_index_random [OF assms pool] have r: "js_index ?pool \<lfloor>u * of_nat (length ?pool)\<rfloor> \<noteq> Undefined"
    by auto
  from js_index_last [OF pool] have l: "js_index ?pool (int (length ?pool) - 1) \<noteq> Undefined"
    by auto
  have z: "?l0 \<noteq> [] \<Longrightarrow> js_index ?l0 \<lfloor>u * of_nat (length ?l0)\<rfloor> \<noteq> Undefined"
    using js_index_random [OF assms, of ?l0] by auto
  show ?thesis
    using False r l z
    by (auto simp: selectFromCopies_unfold Let_def split: sum.splits option.splits)
qed




lemma copies_eq:
  "map (\<lambda>(cmd, index). with_index cmd index) (zip cmds [0..<length cmds])
   = map (\<lambda>i. with_index (cmds ! i) i) [0..<length cmds]"
  by (rule nth_equalityI) simp_all

lemma is_due_with_index [simp]: "is_due now (with_index c i) = is_due now c"
  by (simp add: is_due_def with_index_def)

lemma level_with_index [simp]: "level (with_index c i) = level c"
  by (simp add: with_index_def)

lemma missing_level_message_with_index [simp]:
  "missing_level_message (with_index c i) = missing_level_message c"
  by (simp add: missing_level_message_def with_index_def)

lemma pool_of_copies:
  "commandPool_of (\<lambda>c. c) (map (\<lambda>i. with_index (cmds ! i) i) [0..<length cmds]) idx now
   = map (\<lambda>i. with_index (cmds ! i) i) (candidate_pool cmds idx now)"
  by (simp add: commandPool_of_def dueCommands_of_def candidate_pool_def Let_def filter_map
      comp_def is_due_def with_index_def)

lemma due_of_copies_empty_iff:
  "dueCommands_of (\<lambda>c. c) (map (\<lambda>i. with_index (cmds ! i) i) [0..<length cmds]) now = []
   \<longleftrightarrow> (\<forall>c \<in> set cmds. \<exists>n. nextReview c = Some n \<and> now < n)"
proof -
  have "dueCommands_of (\<lambda>c. c) (map (\<lambda>i. with_index (cmds ! i) i) [0..<length cmds]) now = []
        \<longleftrightarrow> (\<forall>i < length cmds. \<not> is_due now (cmds ! i))"
    by (auto simp: dueCommands_of_def filter_empty_conv)
  also have "\<dots> \<longleftrightarrow> (\<forall>c \<in> set cmds. \<not> is_due now c)"
    by (simp add: all_set_conv_all_nth)
  also have "\<dots> \<longleftrightarrow> (\<forall>c \<in> set cmds. \<exists>n. nextReview c = Some n \<and> now < n)"
    by (auto simp: is_due_def split: option.splits)
  finally show ?thesis .
qed

lemma candidate_pool_due:
  "i \<in> set (candidate_pool cmds idx now) \<Longrightarrow> i < length cmds \<and> is_due now (cmds ! i)"
  by (auto simp: candidate_pool_def Let_def is_due_def split: if_splits)

lemma selectNextCommand_Array:
  "selectNextCommand (Array cmds) idx now u =
     (if cmds = [] then Inr Null
      else selectFromCopies (\<lambda>c. c) (map (\<lambda>i. with_index (cmds ! i) i) [0..<length cmds]) idx now u)"
  by (simp add: selectNextCommand_def copies_eq)

lemma selectNextCommand_Null_iff:
  "selectNextCommand (Array cmds) idx now u = Inr Null
   \<longleftrightarrow> (\<forall>c \<in> set cmds. \<exists>n. nextReview c = Some n \<and> now < n)"
  by (simp add: selectNextCommand_Array selectFromCopies_Null_iff due_of_copies_empty_iff)

lemma selectNextCommand_Selected:
  assumes "selectNextCommand (Array cmds) idx now u = Inr (Selected e)"
  shows "\<exists>i \<in> set (candidate_pool cmds idx now). e = with_index (cmds ! i) i"
proof -
  have ne: "cmds \<noteq> []" using assms by (auto simp: selectNextCommand_Array split: if_splits)
  with assms have "e \<in> set (commandPool_of (\<lambda>c. c)
      (map (\<lambda>i. with_index (cmds ! i) i) [0..<length cmds]) idx now)"
    by (simp add: selectNextCommand_Array selectFromCopies_Selected_pool)
  then show ?thesis by (auto simp: pool_of_copies)
qed

lemma selectNextCommand_level0:
  fixes u :: rat
  assumes "0 \<le> u" and "u < 1"
    and "\<exists>i \<in> set (candidate_pool cmds idx now). level (cmds ! i) = Some 0"
  shows "\<exists>e. selectNextCommand (Array cmds) idx now u = Inr (Selected e) \<and> level e = Some 0"
proof -
  let ?copies = "map (\<lambda>i. with_index (cmds ! i) i) [0..<length cmds]"
  from assms(3) obtain i where i: "i \<in> set (candidate_pool cmds idx now)" "level (cmds ! i) = Some 0"
    by blast
  then have ne: "cmds \<noteq> []" using candidate_pool_due [OF i(1)] by auto
  have "with_index (cmds ! i) i \<in> set (commandPool_of (\<lambda>c. c) ?copies idx now)"
    using i(1) by (simp add: pool_of_copies)
  moreover have "level (with_index (cmds ! i) i) = Some 0"
    using i(2) by (simp add: with_index_def)
  ultimately have "\<exists>c \<in> set (commandPool_of (\<lambda>c. c) ?copies idx now). level c = Some 0"
    by blast
  from selectFromCopies_level0 [OF assms(1,2), of "\<lambda>c. c" ?copies idx now, OF this] ne
  show ?thesis by (auto simp: selectNextCommand_Array)
qed

subsection \<open>Due commands and the priority of level 0\<close>

text \<open>
  Claim C4. Let \<open>u\<close> in \<open>[0, 1)\<close> be the outcome of \<^verbatim>\<open>Math.random()\<close>. The function returns
  \<^verbatim>\<open>null\<close> exactly when every command has a \<open>nextReview\<close> later than \<open>now\<close> (in
  particular for the empty array). A command it returns is the copy of a command of the
  candidate pool, and its \<open>nextReview\<close> is not later than \<open>now\<close>. When the candidate pool
  holds a command of level 0, a command is returned and its level is 0.
\<close>

theorem selectNextCommand_due_and_priority:
  fixes u :: rat
  assumes "0 \<le> u" and "u < 1"
  shows "(selectNextCommand (Array cmds) idx now u = Inr Null
            \<longleftrightarrow> (\<forall>c \<in> set cmds. \<exists>n. nextReview c = Some n \<and> now < n)) \<and>
         (\<forall>e. selectNextCommand (Array cmds) idx now u = Inr (Selected e) \<longrightarrow>
            \<not> (\<exists>n. nextReview e = Some n \<and> now < n) \<and>
            (\<exists>i \<in> set (candidate_pool cmds idx now). e = with_index (cmds ! i) i)) \<and>
         ((\<exists>i \<in> set (candidate_pool cmds idx now). level (cmds ! i) = Some 0) \<longrightarrow>
            (\<exists>e. selectNextCommand (Array cmds) idx now u = Inr (Selected e) \<and> level e = Some 0))"
proof (intro conjI allI impI)
  show "selectNextCommand (Array cmds) idx now u = Inr Null
          \<longleftrightarrow> (\<forall>c \<in> set cmds. \<exists>n. nextReview c = Some n \<and> now < n)"
    by (rule selectNextCommand_Null_iff)
next
  fix e assume sel: "selectNextCommand (Array cmds) idx now u = Inr (Selected e)"
  from selectNextCommand_Selected [OF sel] obtain i where
    i: "i \<in> set (candidate_pool cmds idx now)" "e = with_index (cmds ! i) i" by blast
  from candidate_pool_due [OF i(1)] have "is_due now e" by (simp add: i(2))
  then show "\<not> (\<exists>n. nextReview e = Some n \<and> now < n)"
    by (auto simp: is_due_def)
  from i show "\<exists>i \<in> set (candidate_pool cmds idx now). e = with_index (cmds ! i) i" by blast
next
  assume "\<exists>i \<in> set (candidate_pool cmds idx now). level (cmds ! i) = Some 0"
  with assms show "\<exists>e. selectNextCommand (Array cmds) idx now u = Inr (Selected e) \<and> level e = Some 0"
    by (rule selectNextCommand_level0)
qed

lemma candidate_pool_example:
  "candidate_pool [familiar_gg, fresh_dd, later_cc] (Some 0) 2000 = [1]"
  by (simp add: candidate_pool_def familiar_gg_def fresh_dd_def later_cc_def upt_rec)

text \<open>
  The statement of C4 on three commands at time 2000, the first being the current one:
  the second is due and at level 0, the third is at level 0 but not due, and the second
  is returned.
\<close>

theorem selectNextCommand_due_and_priority_witness:
  "(0::rat) \<le> 1 / 2 \<and> (1 / 2 :: rat) < 1 \<and>
   1 \<in> set (candidate_pool [familiar_gg, fresh_dd, later_cc] (Some 0) 2000) \<and>
   level ([familiar_gg, fresh_dd, later_cc] ! 1) = Some 0 \<and>
   selectNextCommand (Array [familiar_gg, fresh_dd, later_cc]) (Some 0) 2000 (1 / 2)
     = Inr (Selected (with_index fresh_dd 1)) \<and>
   selectNextCommand (Array [familiar_gg, fresh_dd, later_cc]) (Some 0) 2000 (1 / 2) \<noteq> Inr Null"
proof -
  have u: "(0::rat) \<le> 1 / 2" "(1 / 2 :: rat) < 1" by simp_all
  have l0: "level ([familiar_gg, fresh_dd, later_cc] ! 1) = Some 0" by (simp add: fresh_dd_def)
  note inst = selectNextCommand_due_and_priority
    [OF u, of "[familiar_gg, fresh_dd, later_cc]" "Some 0" 2000]
  from inst l0 obtain e where
    e: "selectNextCommand (Array [familiar_gg, fresh_dd, later_cc]) (Some 0) 2000 (1 / 2)
          = Inr (Selected e)"
    by (auto simp: candidate_pool_example)
  with inst have "e = with_index fresh_dd 1" by (auto simp: candidate_pool_example)
  with e u l0 show ?thesis by (simp add: candidate_pool_example)
qed

subsection \<open>Type errors\<close>










subsection \<open>The objects of the caller\<close>

lemma fields_of_append_old:
  "r < length h \<Longrightarrow> fields_of (h @ xs) (Ref r) = fields_of h (Ref r)"
  by (simp add: fields_of_def nth_append)

lemma fields_of_append_new:
  "i < length cs \<Longrightarrow> fields_of (h @ map Obj cs) (Ref (length h + i)) = cs ! i"
  by (simp add: fields_of_def nth_append)

lemma array_at_append_old:
  "array_at h v = Some cmds \<Longrightarrow> array_at (h @ xs) v = Some cmds"
  by (auto simp: array_at_def nth_append split: jsref.splits if_splits cell.splits)

lemma closed_store_array_refs:
  assumes "closed_store h" and "array_at h v = Some cmds" and "Ref r \<in> set cmds"
  shows "r < length h"
proof -
  from assms(2) obtain a where a: "a < length h" "h ! a = Arr cmds"
    by (auto simp: array_at_def split: jsref.splits if_splits cell.splits)
  then have "Arr cmds \<in> set h" by (metis nth_mem)
  with assms(1) have "list_all (\<lambda>v. case v of Primitive \<Rightarrow> True | Ref r \<Rightarrow> r < length h) cmds"
    by (auto simp: closed_store_def list_all_iff)
  with assms(3) show ?thesis by (auto simp: list_all_iff)
qed

lemma copies_store_eq:
  "map (\<lambda>(cmd, index). Obj (with_index (fields_of h cmd) index)) (zip cmds [0..<length cmds])
   = map Obj (map (\<lambda>i. with_index (fields_of h (cmds ! i)) i) [0..<length cmds])"
  by (rule nth_equalityI) simp_all

lemma selectNextCommand_st_array:
  assumes "array_at h commands = Some cmds" and "cmds \<noteq> []"
  shows "selectNextCommand_st h commands idx now u =
           (selectFromCopies
              (fields_of (h @ map Obj (map (\<lambda>i. with_index (fields_of h (cmds ! i)) i) [0..<length cmds])))
              (map Ref [length h..<length h + length cmds]) idx now u,
            h @ map Obj (map (\<lambda>i. with_index (fields_of h (cmds ! i)) i) [0..<length cmds]))"
  using assms by (simp add: selectNextCommand_st_def copies_store_eq Let_def)

lemma selectNextCommand_st_extends:
  "take (length h) (snd (selectNextCommand_st h commands idx now u)) = h"
  by (simp add: selectNextCommand_st_def Let_def split: option.splits)

lemma selectNextCommand_st_not_Undefined:
  fixes u :: rat
  assumes "0 \<le> u" and "u < 1"
  shows "fst (selectNextCommand_st h commands idx now u) \<noteq> Inr Undefined"
  by (simp add: selectNextCommand_st_def Let_def selectFromCopies_not_Undefined [OF assms]
      split: option.splits)

text \<open>
  Claim C10. In a store whose arrays hold references into the store, with \<open>u\<close> in
  \<open>[0, 1)\<close>: the call leaves every cell of the store as it was, so the array it is given
  and the objects in it are unchanged; a value it returns is a reference to a cell
  allocated by the call, hence none of the references of the input array, and the object
  there has the fields of the input command at some index \<open>i\<close> with \<open>originalIndex\<close> set to
  \<open>i\<close>; and it does not return \<^verbatim>\<open>undefined\<close>.
\<close>

theorem selectNextCommand_st_frame:
  fixes u :: rat
  assumes "closed_store h" and "0 \<le> u" and "u < 1"
  shows "take (length h) (snd (selectNextCommand_st h commands idx now u)) = h \<and>
         array_at (snd (selectNextCommand_st h commands idx now u)) commands = array_at h commands \<and>
         (\<forall>cmds. array_at h commands = Some cmds \<longrightarrow>
            (\<forall>w \<in> set cmds. fields_of (snd (selectNextCommand_st h commands idx now u)) w
                              = fields_of h w)) \<and>
         (\<forall>v. fst (selectNextCommand_st h commands idx now u) = Inr (Selected v) \<longrightarrow>
            (\<exists>cmds i. array_at h commands = Some cmds \<and> i < length cmds \<and>
               v = Ref (length h + i) \<and> v \<notin> set cmds \<and>
               fields_of (snd (selectNextCommand_st h commands idx now u)) v
                 = (fields_of h (cmds ! i))\<lparr>originalIndex := Some (int i)\<rparr>)) \<and>
         fst (selectNextCommand_st h commands idx now u) \<noteq> Inr Undefined"
proof (intro conjI allI impI ballI)
  show "fst (selectNextCommand_st h commands idx now u) \<noteq> Inr Undefined"
    using assms(2,3) by (rule selectNextCommand_st_not_Undefined)
next
  let ?res = "selectNextCommand_st h commands idx now u"
  show ext: "take (length h) (snd ?res) = h" by (rule selectNextCommand_st_extends)
  obtain xs where h': "snd ?res = h @ xs"
    using ext by (metis append_take_drop_id)
  show "array_at (snd ?res) commands = array_at h commands"
  proof (cases "array_at h commands")
    case None
    then show ?thesis by (simp add: selectNextCommand_st_def)
  next
    case (Some cmds)
    then show ?thesis by (simp add: h' array_at_append_old)
  qed
  {
    fix cmds w assume a: "array_at h commands = Some cmds" and w: "w \<in> set cmds"
    show "fields_of (snd ?res) w = fields_of h w"
    proof (cases w)
      case Primitive
      then show ?thesis by (simp add: fields_of_def)
    next
      case (Ref r)
      with closed_store_array_refs [OF assms(1) a] w have "r < length h" by blast
      then show ?thesis by (simp add: Ref h' fields_of_append_old)
    qed
  }
  {
    fix v assume sel: "fst ?res = Inr (Selected v)"
    then obtain cmds where a: "array_at h commands = Some cmds"
      by (cases "array_at h commands") (auto simp: selectNextCommand_st_def)
    with sel have ne: "cmds \<noteq> []"
      by (auto simp: selectNextCommand_st_def)
    let ?cs = "map (\<lambda>i. with_index (fields_of h (cmds ! i)) i) [0..<length cmds]"
    let ?refs = "map Ref [length h..<length h + length cmds]"
    have res: "?res = (selectFromCopies (fields_of (h @ map Obj ?cs)) ?refs idx now u, h @ map Obj ?cs)"
      by (rule selectNextCommand_st_array [OF a ne])
    with sel have "selectFromCopies (fields_of (h @ map Obj ?cs)) ?refs idx now u = Inr (Selected v)"
      by simp
    from selectFromCopies_Selected_pool [OF this] commandPool_subset_due
    have "v \<in> set ?refs"
      by (fastforce simp: dueCommands_of_def)
    then obtain i where i: "i < length cmds" "v = Ref (length h + i)"
      by (auto simp: image_iff) (metis add.commute le_Suc_ex nat_add_left_cancel_less)
    have fresh: "v \<notin> set cmds"
    proof
      assume "v \<in> set cmds"
      with closed_store_array_refs [OF assms(1) a] i(2) have "length h + i < length h" by blast
      then show False by simp
    qed
    have "fields_of (snd ?res) v = ?cs ! i"
      using i fields_of_append_new [of i ?cs h] by (simp add: res)
    then have "fields_of (snd ?res) v = (fields_of h (cmds ! i))\<lparr>originalIndex := Some (int i)\<rparr>"
      using i(1) by (simp add: with_index_def)
    with a i fresh
    show "\<exists>cmds i. array_at h commands = Some cmds \<and> i < length cmds \<and>
               v = Ref (length h + i) \<and> v \<notin> set cmds \<and>
               fields_of (snd ?res) v = (fields_of h (cmds ! i))\<lparr>originalIndex := Some (int i)\<rparr>"
      by blast
  }
qed

lemma two_command_store_run:
  "selectNextCommand_st two_command_store (Ref 2) (Some 0) 2000 (1 / 2)
   = (Inr (Selected (Ref 4)),
      two_command_store @ [Obj (with_index fresh_dd 0), Obj (with_index familiar_gg 1)])"
  by code_simp

text \<open>
  The statement of C10 on a store with two commands and the array of both, the first
  being the current one: the second is chosen, the new object at address 4 is its copy
  with \<open>originalIndex\<close> 1, and the object at address 1 is as before.
\<close>

theorem selectNextCommand_st_frame_witness:
  "closed_store two_command_store \<and> (0::rat) \<le> 1 / 2 \<and> (1 / 2 :: rat) < 1 \<and>
   take 3 (snd (selectNextCommand_st two_command_store (Ref 2) (Some 0) 2000 (1 / 2)))
     = two_command_store \<and>
   fst (selectNextCommand_st two_command_store (Ref 2) (Some 0) 2000 (1 / 2))
     = Inr (Selected (Ref 4)) \<and>
   fields_of (snd (selectNextCommand_st two_command_store (Ref 2) (Some 0) 2000 (1 / 2))) (Ref 4)
     = familiar_gg\<lparr>originalIndex := Some 1\<rparr> \<and>
   fields_of (snd (selectNextCommand_st two_command_store (Ref 2) (Some 0) 2000 (1 / 2))) (Ref 1)
     = familiar_gg"
proof -
  have c: "closed_store two_command_store"
    by (simp add: closed_store_def two_command_store_def)
  have len: "length two_command_store = 3" by (simp add: two_command_store_def)
  have arr: "array_at two_command_store (Ref 2) = Some [Ref 0, Ref 1]"
    by (simp add: array_at_def two_command_store_def)
  have old: "fields_of two_command_store (Ref 1) = familiar_gg"
    "fields_of two_command_store (Ref (Suc 0)) = familiar_gg"
    by (simp_all add: fields_of_def two_command_store_def)
  have sel: "fst (selectNextCommand_st two_command_store (Ref 2) (Some 0) 2000 (1 / 2))
     = Inr (Selected (Ref 4))"
    by (simp add: two_command_store_run)
  have u: "(0::rat) \<le> 1 / 2" "(1 / 2 :: rat) < 1" by simp_all
  note inst = selectNextCommand_st_frame [OF c u, of "Ref 2" "Some 0" 2000]
  from inst have t: "take 3 (snd (selectNextCommand_st two_command_store (Ref 2) (Some 0) 2000 (1 / 2)))
     = two_command_store"
    by (simp add: len)
  from inst arr have o: "fields_of (snd (selectNextCommand_st two_command_store (Ref 2) (Some 0) 2000 (1 / 2))) (Ref 1)
     = familiar_gg"
    by (simp add: old)
  from inst sel arr have "fields_of (snd (selectNextCommand_st two_command_store (Ref 2) (Some 0) 2000 (1 / 2))) (Ref 4)
     = (fields_of two_command_store ([Ref 0, Ref 1] ! 1))\<lparr>originalIndex := Some (int 1)\<rparr>"
    by (auto simp: len)
  then have n: "fields_of (snd (selectNextCommand_st two_command_store (Ref 2) (Some 0) 2000 (1 / 2))) (Ref 4)
     = familiar_gg\<lparr>originalIndex := Some 1\<rparr>"
    by (simp add: old)
  from c u t sel n o show ?thesis by simp
qed

text \<open>
  The two models agree: what the model with a store returns, read through the store, is
  what the model on values returns for the commands of the array.
\<close>

lemma js_index_map: "js_index (map f xs) i = map_selection f (js_index xs i)"
proof (cases "0 \<le> i \<and> i < int (length xs)")
  case True
  then have "nat i < length xs" by linarith
  with True show ?thesis by (simp add: js_index_def)
next
  case False
  then show ?thesis by (auto simp: js_index_def)
qed

lemma weighted_walk_map: "weighted_walk r (map f xs) ws = map_option f (weighted_walk r xs ws)"
  by (induction r xs ws rule: weighted_walk.induct) (simp_all add: Let_def)

lemma dueCommands_of_map:
  "dueCommands_of (\<lambda>c. c) (map get xs) now = map get (dueCommands_of get xs now)"
  by (simp add: dueCommands_of_def filter_map comp_def)

lemma commandPool_of_map:
  "commandPool_of (\<lambda>c. c) (map get xs) idx now = map get (commandPool_of get xs idx now)"
  by (simp add: commandPool_of_def dueCommands_of_map Let_def filter_map comp_def)

lemma selectFromCopies_natural:
  "selectFromCopies (\<lambda>c. c) (map get xs) idx now u
   = map_sum id (map_selection get) (selectFromCopies get xs idx now u)"
proof -
  let ?pool = "commandPool_of get xs idx now"
  have l0: "filter (\<lambda>cmd. level cmd = Some 0) (map get ?pool)
            = map get (filter (\<lambda>cmd. level (get cmd) = Some 0) ?pool)"
    by (simp add: filter_map comp_def)
  show ?thesis
    unfolding selectFromCopies_unfold [of "\<lambda>c. c"] selectFromCopies_unfold [of get]
      dueCommands_of_map commandPool_of_map Let_def l0
    by (simp add: js_index_map weighted_walk_map split: sum.splits option.splits)
qed

lemma selectNextCommand_st_refines:
  assumes "array_at h commands = Some cmds"
  shows "map_sum id (map_selection (fields_of (snd (selectNextCommand_st h commands idx now u))))
           (fst (selectNextCommand_st h commands idx now u))
         = selectNextCommand (Array (map (fields_of h) cmds)) idx now u"
proof (cases "cmds = []")
  case True
  with assms show ?thesis by (simp add: selectNextCommand_st_def selectNextCommand_def)
next
  case False
  let ?cs = "map (\<lambda>i. with_index (fields_of h (cmds ! i)) i) [0..<length cmds]"
  let ?h' = "h @ map Obj ?cs"
  let ?refs = "map Ref [length h..<length h + length cmds]"
  have copies: "map (fields_of ?h') ?refs = ?cs"
    by (rule nth_equalityI) (simp_all add: fields_of_def nth_append)
  have vals: "map (\<lambda>i. with_index (map (fields_of h) cmds ! i) i)
                [0..<length (map (fields_of h) cmds)] = ?cs"
    by (rule nth_equalityI) simp_all
  have "map_sum id (map_selection (fields_of ?h')) (selectFromCopies (fields_of ?h') ?refs idx now u)
        = selectFromCopies (\<lambda>c. c) (map (fields_of ?h') ?refs) idx now u"
    by (simp only: selectFromCopies_natural)
  also have "\<dots> = selectFromCopies (\<lambda>c. c) ?cs idx now u"
    by (simp only: copies)
  also have "\<dots> = selectNextCommand (Array (map (fields_of h) cmds)) idx now u"
    using False by (simp only: selectNextCommand_Array vals) simp
  finally show ?thesis
    by (simp only: selectNextCommand_st_array [OF assms False] fst_conv snd_conv)
qed

lemma selectNextCommand_st_agrees:
  "map_sum id (map_selection (fields_of (snd (selectNextCommand_st h commands idx now u))))
     (fst (selectNextCommand_st h commands idx now u))
   = selectNextCommand (array_arg h commands) idx now u"
proof (cases "array_at h commands")
  case None
  then show ?thesis by (simp add: selectNextCommand_st_def selectNextCommand_def array_arg_def)
next
  case (Some cmds)
  then show ?thesis by (simp add: array_arg_def selectNextCommand_st_refines)
qed

section \<open>Properties of the timer\<close>

lemma run_Nil [simp]: "run s [] = s"
  by (simp add: run_def)

lemma run_snoc [simp]: "run s (es @ [e]) = step (run s es) e"
  by (simp add: run_def)












text \<open>
  The value that a paused timer reports is the one stored by the last tick or call of
  \<^verbatim>\<open>getRemaining()\<close> before \<^verbatim>\<open>pause()\<close>, which does not update it: paused after 2 of 5
  seconds with no update in between, the timer reports 5, and 3 once it is resumed.
\<close>

lemma pause_keeps_last_update:
  "fst (getRemaining 2000 (snd (run (0, createTimer 5) [Start, ClockAdvance 2000, Pause]))) = 5 \<and>
   fst (getRemaining 2000 (snd (run (0, createTimer 5) [Start, ClockAdvance 2000, Pause, Start])))
     = 3"
  by code_simp






end
